theory Spec2Isabelle
  imports Main "HOL-Library.Sublist"
begin

section \<open>Data model\<close>

text \<open>
  Text is a \<open>string\<close>, one \<open>char\<close> per code point (code points below 256).

  A peewee field, as far as \<^verbatim>\<open>filters.py\<close> looks at it: its \<^verbatim>\<open>name\<close>, the
  peewee classes it is an instance of (what \<^verbatim>\<open>isinstance\<close> is asked about), and
  the name of the primary key of the model the field belongs to, the value of
  \<^verbatim>\<open>field.model._meta.primary_key.name\<close>. For a model declared without a primary key
  (\<^verbatim>\<open>primary_key = False\<close>) \<^verbatim>\<open>_meta.primary_key\<close> is \<^verbatim>\<open>False\<close>, which has no attribute
  \<^verbatim>\<open>name\<close>: the record holds \<open>None\<close> then, and reading the name raises
  \<^verbatim>\<open>AttributeError\<close>.
\<close>

datatype peewee_cls = CharField | IntegerField | BooleanField | DateTimeField
  | OtherField string

record peewee_field =
  name :: string
  classes :: "peewee_cls list"
  primary_key_name :: "string option"

definition isinstance :: "peewee_field \<Rightarrow> peewee_cls \<Rightarrow> bool" where
  "isinstance field_py cls = (cls \<in> set (classes field_py))"

text \<open>A \<^verbatim>\<open>datetime\<close>: year, month, day, hour, minute, second.\<close>

datatype datetime = Datetime nat nat nat nat nat nat

text \<open>The values the adapters hand on: the raw \<^verbatim>\<open>str\<close>, a \<^verbatim>\<open>bool\<close>, a \<^verbatim>\<open>datetime\<close>.\<close>

datatype pyvalue = PyStr string | PyBool bool | PyDatetime datetime

text \<open>The functions of Python's \<^verbatim>\<open>operator\<close> module that \<^verbatim>\<open>MAP\<close> holds.\<close>

datatype pyoperator = Op_eq | Op_ne | Op_ge | Op_le | Op_gt | Op_lt | Op_mod | Op_pow

text \<open>
  What is passed to \<^verbatim>\<open>where\<close>: the expression \<^verbatim>\<open>op(field, value)\<close> that an operator
  function builds from a field, or the result of calling the field's method of the given
  name on a \<^verbatim>\<open>bool\<close> (\<^verbatim>\<open>getattr(field, operator)(b)\<close>; for \<^verbatim>\<open>is_null\<close> the null check).
\<close>

datatype predicate =
    Expression pyoperator peewee_field pyvalue
  | MethodCall peewee_field string bool

text \<open>
  What is passed to \<^verbatim>\<open>order_by\<close>: a field (ascending), \<^verbatim>\<open>field.desc()\<close>, or \<^verbatim>\<open>None\<close>
  (what \<^verbatim>\<open>get_default_ordering_field\<close> returns when its loop finds nothing).
\<close>

datatype ordering = Ascending peewee_field | Desc peewee_field | NoOrdering

text \<open>
  The peewee query: its selected columns, its WHERE clause (a conjunction, in the order
  the conjuncts were added) and its ORDER BY clause.
\<close>

record query =
  selected_columns :: "peewee_field list"
  where_clause :: "predicate list"
  order_by_clause :: "ordering list"

text \<open>
  peewee's \<^verbatim>\<open>Query.where(expr)\<close> conjoins \<^verbatim>\<open>expr\<close> to the WHERE clause;
  \<^verbatim>\<open>Query.order_by(value)\<close> sets the ORDER BY clause to \<^verbatim>\<open>value\<close>, overwriting what
  an earlier call set (\<^verbatim>\<open>order_by_extend\<close> is the method that appends). Both return a
  copy of the query, which the filters store back into \<^verbatim>\<open>self.query\<close>.
\<close>

definition query_where :: "query \<Rightarrow> predicate \<Rightarrow> query" where
  "query_where q p = q\<lparr>where_clause := where_clause q @ [p]\<rparr>"

definition query_order_by :: "query \<Rightarrow> ordering \<Rightarrow> query" where
  "query_order_by q v = q\<lparr>order_by_clause := [v]\<rparr>"

text \<open>The exceptions of the module: \<^verbatim>\<open>Exception(f"Field {field_name} not found")\<close>,
  the \<^verbatim>\<open>KeyError\<close> of a dictionary lookup and the \<^verbatim>\<open>AttributeError\<close> of reading the
  name of a primary key that is not there.\<close>

datatype error = FieldNotFound string | KeyError string | AttributeError

section \<open>Field type adapters\<close>

datatype filter_field =
    FilterCharField peewee_field
  | FilterBooleanField peewee_field
  | FilterIntegerField peewee_field
  | FilterDateTimeField peewee_field
  | FilterDefaultField peewee_field

fun field_py :: "filter_field \<Rightarrow> peewee_field" where
  "field_py (FilterCharField f) = f"
| "field_py (FilterBooleanField f) = f"
| "field_py (FilterIntegerField f) = f"
| "field_py (FilterDateTimeField f) = f"
| "field_py (FilterDefaultField f) = f"

text \<open>\<^verbatim>\<open>is_support_operator\<close>: \<^verbatim>\<open>True\<close> in the base class, \<^verbatim>\<open>operator not in [...]\<close>
  in the boolean, integer and date-time adapters.\<close>

fun is_support_operator :: "filter_field \<Rightarrow> string \<Rightarrow> bool" where
  "is_support_operator (FilterCharField f) operator = True"
| "is_support_operator (FilterBooleanField f) operator =
     (operator \<notin> set [''>='', ''<='', ''>'', ''<'', ''LIKE'', ''ILIKE''])"
| "is_support_operator (FilterIntegerField f) operator =
     (operator \<notin> set [''LIKE'', ''ILIKE''])"
| "is_support_operator (FilterDateTimeField f) operator =
     (operator \<notin> set [''LIKE'', ''ILIKE''])"
| "is_support_operator (FilterDefaultField f) operator = True"

text \<open>
  \<^verbatim>\<open>datetime.strptime(date_string, format)\<close> is a parameter of the model: a function
  that returns the parsed \<^verbatim>\<open>datetime\<close>, or \<open>None\<close> where \<^verbatim>\<open>strptime\<close> raises
  \<^verbatim>\<open>ValueError\<close>.
\<close>

type_synonym strptime = "string \<Rightarrow> string \<Rightarrow> datetime option"

definition FORMATS :: "string list" where
  "FORMATS = [''%Y-%m-%dT%H:%M:%S'']"

text \<open>The loop of \<^verbatim>\<open>FilterDateTimeField.parse_value\<close>: the first format that parses
  returns; a \<^verbatim>\<open>ValueError\<close> goes on to the next format; after the loop, \<^verbatim>\<open>ret\<close>.\<close>

fun parse_formats :: "strptime \<Rightarrow> string list \<Rightarrow> string \<Rightarrow> pyvalue" where
  "parse_formats strp [] ret = PyStr ret"
| "parse_formats strp (format # formats) ret =
     (case strp ret format of
        Some d \<Rightarrow> PyDatetime d
      | None \<Rightarrow> parse_formats strp formats ret)"

fun parse_value :: "strptime \<Rightarrow> filter_field \<Rightarrow> string \<Rightarrow> pyvalue" where
  "parse_value strp (FilterCharField f) v = PyStr v"
| "parse_value strp (FilterBooleanField f) v = PyBool (v = ''true'')"
| "parse_value strp (FilterIntegerField f) v = PyStr v"
| "parse_value strp (FilterDateTimeField f) v = parse_formats strp FORMATS v"
| "parse_value strp (FilterDefaultField f) v = PyStr v"

section \<open>BaseFilter\<close>

definition get_valid_field_name_list :: "query \<Rightarrow> string list" where
  "get_valid_field_name_list q = map name (selected_columns q)"

fun find_field :: "peewee_field list \<Rightarrow> string \<Rightarrow> error + peewee_field" where
  "find_field [] field_name = Inl (FieldNotFound field_name)"
| "find_field (f # fs) field_name =
     (if name f = field_name then Inr f else find_field fs field_name)"

definition get_field_py :: "query \<Rightarrow> string \<Rightarrow> error + peewee_field" where
  "get_field_py q field_name = find_field (selected_columns q) field_name"

section \<open>DefaultFilter: the key grammar\<close>

definition MAP :: "(string \<times> pyoperator) list" where
  "MAP = [(''=='', Op_eq), (''!='', Op_ne), (''>='', Op_ge), (''<='', Op_le),
          (''>'', Op_gt), (''<'', Op_lt), (''LIKE'', Op_mod), (''ILIKE'', Op_pow)]"

definition SUPPORT_METHOD :: "string list" where
  "SUPPORT_METHOD = [''is_null'']"

text \<open>\<^verbatim>\<open>operator_pattern\<close>: every key followed by \<^verbatim>\<open>|\<close>, the last \<^verbatim>\<open>|\<close> cut off.\<close>

definition operator_pattern :: string where
  "operator_pattern = butlast (concat (map (\<lambda>key. key @ ''|'') (map fst MAP @ SUPPORT_METHOD)))"

fun split_on :: "char \<Rightarrow> string \<Rightarrow> string list" where
  "split_on sep [] = [[]]"
| "split_on sep (c # cs) =
     (if c = sep then [] # split_on sep cs
      else (case split_on sep cs of [] \<Rightarrow> [[c]] | w # ws \<Rightarrow> (c # w) # ws))"

text \<open>
  The regular expression is
  \<^verbatim>\<open>(?P<key>.*)\((?P<operator>{operator_pattern}\))\<close>.
  The body of the group \<^verbatim>\<open>operator\<close> is the text of \<^verbatim>\<open>operator_pattern\<close> followed by
  the escaped \<^verbatim>\<open>\)\<close>. In a regular expression concatenation binds tighter than \<^verbatim>\<open>|\<close>,
  so the alternatives of the group are the pieces of that body between the \<^verbatim>\<open>|\<close>, and
  the closing parenthesis is part of the last piece only. None of the tokens holds a
  character that is special in a regular expression, so each piece matches itself.
\<close>

definition operator_alternatives :: "string list" where
  "operator_alternatives = split_on CHR ''|'' (operator_pattern @ '')'')"

text \<open>An alternation takes the first alternative, in the order written, that matches.\<close>

fun match_alternatives :: "string list \<Rightarrow> string \<Rightarrow> string option" where
  "match_alternatives [] s = None"
| "match_alternatives (t # ts) s =
     (if prefix t s then Some t else match_alternatives ts s)"

text \<open>\<^verbatim>\<open>\((?P<operator>...)\<close> at the head of the text: the captured operator.\<close>

fun match_operator :: "string \<Rightarrow> string option" where
  "match_operator [] = None"
| "match_operator (c # cs) =
     (if c = CHR ''('' then match_alternatives operator_alternatives cs else None)"

record operator_dict =
  key :: string
  operator :: string

text \<open>
  The whole expression, matched at the head of the text. \<^verbatim>\<open>.*\<close> is greedy and \<^verbatim>\<open>.\<close>
  matches every character but the newline: the longest \<^verbatim>\<open>key\<close> is tried first, so a
  match that takes one more character wins over the match of the rest at this place.
\<close>

fun match_here :: "string \<Rightarrow> operator_dict option" where
  "match_here [] = None"
| "match_here (c # cs) =
     (case (if c = CHR 0x0A then None else match_here cs) of
        Some d \<Rightarrow> Some (d\<lparr>key := c # key d\<rparr>)
      | None \<Rightarrow>
          (case match_operator (c # cs) of
             Some tok \<Rightarrow> Some \<lparr>key = [], operator = tok\<rparr>
           | None \<Rightarrow> None))"

text \<open>\<^verbatim>\<open>re.search\<close>: the match at the leftmost place of the text that has one.\<close>

fun re_search :: "string \<Rightarrow> operator_dict option" where
  "re_search [] = match_here []"
| "re_search (c # cs) =
     (case match_here (c # cs) of Some d \<Rightarrow> Some d | None \<Rightarrow> re_search cs)"

definition split_operator :: "string \<Rightarrow> operator_dict option" where
  "split_operator param_key = re_search param_key"

section \<open>DefaultFilter: the predicate filter\<close>

definition FIELD_MAP :: "(peewee_cls \<times> (peewee_field \<Rightarrow> filter_field)) list" where
  "FIELD_MAP = [(CharField, FilterCharField), (IntegerField, FilterIntegerField),
                (BooleanField, FilterBooleanField), (DateTimeField, FilterDateTimeField)]"

fun get_filter_field_items ::
  "(peewee_cls \<times> (peewee_field \<Rightarrow> filter_field)) list \<Rightarrow> peewee_field \<Rightarrow> filter_field" where
  "get_filter_field_items [] f = FilterDefaultField f"
| "get_filter_field_items ((peewee_field_cls, filter_field_cls) # items) f =
     (if isinstance f peewee_field_cls then filter_field_cls f
      else get_filter_field_items items f)"

definition get_filter_field :: "peewee_field \<Rightarrow> filter_field" where
  "get_filter_field f = get_filter_field_items FIELD_MAP f"

text \<open>
  The body of the loop of \<^verbatim>\<open>DefaultFilter.filter\<close> for one \<^verbatim>\<open>(param_key, value)\<close>:
  every \<^verbatim>\<open>continue\<close> returns the query as it is; \<^verbatim>\<open>self.MAP[operator]\<close> is
  evaluated before its arguments and raises \<^verbatim>\<open>KeyError\<close> for a key that is not in \<^verbatim>\<open>MAP\<close>.
\<close>

definition filter_param :: "strptime \<Rightarrow> query \<Rightarrow> string \<times> string \<Rightarrow> error + query" where
  "filter_param strp q param =
     (case split_operator (fst param) of
        None \<Rightarrow> Inr q
      | Some operator_dict \<Rightarrow>
          if key operator_dict \<notin> set (get_valid_field_name_list q) then Inr q
          else
            (case get_field_py q (key operator_dict) of
               Inl e \<Rightarrow> Inl e
             | Inr f \<Rightarrow>
                 if \<not> is_support_operator (get_filter_field f) (operator operator_dict)
                 then Inr q
                 else if operator operator_dict \<in> set SUPPORT_METHOD
                 then Inr (query_where q
                        (MethodCall (field_py (get_filter_field f)) (operator operator_dict)
                           (snd param = ''true'')))
                 else
                   (case map_of MAP (operator operator_dict) of
                      None \<Rightarrow> Inl (KeyError (operator operator_dict))
                    | Some op \<Rightarrow>
                        Inr (query_where q
                          (Expression op (field_py (get_filter_field f))
                             (parse_value strp (get_filter_field f) (snd param)))))))"

text \<open>\<^verbatim>\<open>query_params.items()\<close> is the list of the pairs in the order of the mapping;
  an exception ends the loop.\<close>

fun DefaultFilter_filter ::
  "strptime \<Rightarrow> query \<Rightarrow> (string \<times> string) list \<Rightarrow> error + query" where
  "DefaultFilter_filter strp q [] = Inr q"
| "DefaultFilter_filter strp q (param # params) =
     (case filter_param strp q param of
        Inl e \<Rightarrow> Inl e
      | Inr q' \<Rightarrow> DefaultFilter_filter strp q' params)"

section \<open>OrderingFilter\<close>

text \<open>\<^verbatim>\<open>str.isspace\<close> on the code points below 256, \<^verbatim>\<open>str.strip()\<close>,
  \<^verbatim>\<open>str.startswith("-")\<close> and the slice \<^verbatim>\<open>[1:]\<close>.\<close>

definition isspace :: "char \<Rightarrow> bool" where
  "isspace c = (of_char c \<in> set [9, 10, 11, 12, 13, 28, 29, 30, 31, 32, 133, 160 :: nat])"

definition strip :: "string \<Rightarrow> string" where
  "strip s = rev (dropWhile isspace (rev (dropWhile isspace s)))"

definition startswith_minus :: "string \<Rightarrow> bool" where
  "startswith_minus s = prefix ''-'' s"

definition slice_from_1 :: "string \<Rightarrow> string" where
  "slice_from_1 s = drop 1 s"

text \<open>
  The loop of \<^verbatim>\<open>get_default_ordering_field\<close>: at every column it reaches it reads
  \<^verbatim>\<open>field.model._meta.primary_key.name\<close>, which raises where the model has no primary
  key; the first column that bears the name of the primary key of its model is returned;
  after the loop the function ends without a \<^verbatim>\<open>return\<close>, that is, it returns \<^verbatim>\<open>None\<close>.
\<close>

fun find_primary_key :: "peewee_field list \<Rightarrow> error + peewee_field option" where
  "find_primary_key [] = Inr None"
| "find_primary_key (f # fs) =
     (case primary_key_name f of
        None \<Rightarrow> Inl AttributeError
      | Some pk \<Rightarrow> if pk = name f then Inr (Some f) else find_primary_key fs)"

definition get_default_ordering_field :: "query \<Rightarrow> error + peewee_field option" where
  "get_default_ordering_field q = find_primary_key (selected_columns q)"

definition term_valid :: "string list \<Rightarrow> string \<Rightarrow> bool" where
  "term_valid valid_field_name_list ordering_param =
     ((if startswith_minus ordering_param then slice_from_1 ordering_param
       else ordering_param) \<in> set valid_field_name_list)"

definition filter_valid_fields :: "query \<Rightarrow> string list \<Rightarrow> string list" where
  "filter_valid_fields q ordering_param_list =
     filter (term_valid (get_valid_field_name_list q)) ordering_param_list"

text \<open>The value one pass of the loop hands to \<^verbatim>\<open>order_by\<close>.\<close>

definition field_ordering :: "query \<Rightarrow> string \<Rightarrow> error + ordering" where
  "field_ordering q field_name =
     (if startswith_minus field_name
      then (case get_field_py q (slice_from_1 field_name) of
              Inl e \<Rightarrow> Inl e | Inr f \<Rightarrow> Inr (Desc f))
      else (case get_field_py q field_name of
              Inl e \<Rightarrow> Inl e | Inr f \<Rightarrow> Inr (Ascending f)))"

text \<open>The loop \<^verbatim>\<open>for field_name in reversed(field_name_list)\<close>, over the reversed list.\<close>

fun order_by_fields :: "query \<Rightarrow> string list \<Rightarrow> error + query" where
  "order_by_fields q [] = Inr q"
| "order_by_fields q (field_name # field_names) =
     (case field_ordering q field_name of
        Inl e \<Rightarrow> Inl e
      | Inr ordering_value \<Rightarrow>
          order_by_fields (query_order_by q ordering_value) field_names)"

definition ordering_field_name_list :: "query \<Rightarrow> string \<Rightarrow> string list" where
  "ordering_field_name_list q ordering_param =
     (if ordering_param \<noteq> []
      then filter_valid_fields q (map strip (split_on CHR '','' ordering_param))
      else [])"

definition OrderingFilter_filter :: "query \<Rightarrow> string option \<Rightarrow> error + query" where
  "OrderingFilter_filter q ordering_param =
     (case ordering_param of
        None \<Rightarrow>
          (case get_default_ordering_field q of
             Inl e \<Rightarrow> Inl e
           | Inr default_field \<Rightarrow>
               Inr (query_order_by q
                 (case default_field of
                    Some f \<Rightarrow> Ascending f | None \<Rightarrow> NoOrdering)))
      | Some param \<Rightarrow>
          (let field_name_list = ordering_field_name_list q param in
           if field_name_list \<noteq> [] then order_by_fields q (rev field_name_list)
           else Inr q))"

section \<open>Example data\<close>

text \<open>
  A model with the fields \<^verbatim>\<open>id\<close> (an \<^verbatim>\<open>AutoField\<close>, which is an \<^verbatim>\<open>IntegerField\<close>, the
  primary key), \<^verbatim>\<open>name\<close> (a \<^verbatim>\<open>CharField\<close>), \<^verbatim>\<open>active\<close> (a \<^verbatim>\<open>BooleanField\<close>) and
  \<^verbatim>\<open>created\<close> (a \<^verbatim>\<open>DateTimeField\<close>), and the query that selects them all.
\<close>

definition example_id :: peewee_field where
  "example_id = \<lparr>name = ''id'',
     classes = [OtherField ''AutoField'', IntegerField, OtherField ''Field''],
     primary_key_name = Some ''id''\<rparr>"

definition example_name :: peewee_field where
  "example_name = \<lparr>name = ''name'',
     classes = [CharField, OtherField ''Field''], primary_key_name = Some ''id''\<rparr>"

definition example_active :: peewee_field where
  "example_active = \<lparr>name = ''active'',
     classes = [BooleanField, OtherField ''Field''], primary_key_name = Some ''id''\<rparr>"

definition example_created :: peewee_field where
  "example_created = \<lparr>name = ''created'',
     classes = [DateTimeField, OtherField ''Field''], primary_key_name = Some ''id''\<rparr>"

text \<open>A column \<^verbatim>\<open>x\<close> of a model declared with \<^verbatim>\<open>primary_key = False\<close>.\<close>

definition example_unkeyed :: peewee_field where
  "example_unkeyed = \<lparr>name = ''x'',
     classes = [CharField, OtherField ''Field''], primary_key_name = None\<rparr>"

definition example_query :: query where
  "example_query = \<lparr>selected_columns = [example_id, example_name, example_active, example_created],
     where_clause = [], order_by_clause = []\<rparr>"

text \<open>A \<^verbatim>\<open>strptime\<close> for the examples: it parses one timestamp in the configured format
  and raises \<^verbatim>\<open>ValueError\<close> on everything else.\<close>

definition example_strptime :: strptime where
  "example_strptime date_string format =
     (if format = ''%Y-%m-%dT%H:%M:%S'' \<and> date_string = ''2024-01-02T03:04:05''
      then Some (Datetime 2024 1 2 3 4 5) else None)"

section \<open>Properties of the key grammar\<close>

lemma operator_alternatives_eq:
  "operator_alternatives =
     [''=='', ''!='', ''>='', ''<='', ''>'', ''<'', ''LIKE'', ''ILIKE'', ''is_null)'']"
  by (simp add: operator_alternatives_def operator_pattern_def MAP_def SUPPORT_METHOD_def)

lemma match_alternatives_mem:
  "match_alternatives ts s = Some t \<Longrightarrow> t \<in> set ts \<and> prefix t s"
  by (induction ts) (auto split: if_splits)

lemma match_alternatives_None:
  "match_alternatives ts s = None \<longleftrightarrow> (\<forall>t \<in> set ts. \<not> prefix t s)"
  by (induction ts) auto

lemma match_operator_mem:
  "match_operator s = Some t \<Longrightarrow> t \<in> set operator_alternatives \<and> prefix (CHR ''('' # t) s"
  by (cases s) (auto split: if_splits dest: match_alternatives_mem)

lemma match_here_operator:
  "match_here s = Some d \<Longrightarrow> operator d \<in> set operator_alternatives"
proof (induction s arbitrary: d)
  case Nil
  then show ?case by simp
next
  case (Cons c cs)
  show ?case
  proof (cases "if c = CHR 0x0A then None else match_here cs")
    case None
    with Cons.prems obtain tok where "match_operator (c # cs) = Some tok" "d = \<lparr>key = [], operator = tok\<rparr>"
      by (auto split: option.splits)
    then show ?thesis using match_operator_mem by fastforce
  next
    case (Some d')
    then have "match_here cs = Some d'" by (auto split: if_splits)
    moreover from Some Cons.prems have "operator d = operator d'" by auto
    ultimately show ?thesis using Cons.IH by simp
  qed
qed

lemma re_search_operator:
  "re_search s = Some d \<Longrightarrow> operator d \<in> set operator_alternatives"
  by (induction s)
     (auto simp del: match_here.simps split: option.splits dest: match_here_operator)

lemma split_operator_operator:
  "split_operator k = Some d \<Longrightarrow> operator d \<in> set operator_alternatives"
  unfolding split_operator_def by (rule re_search_operator)

lemma split_operator_never_is_null:
  "split_operator k = Some d \<Longrightarrow> operator d \<notin> set SUPPORT_METHOD"
  using split_operator_operator [of k d]
  by (auto simp: operator_alternatives_eq SUPPORT_METHOD_def)

lemma match_here_is_null:
  "CHR 0x0A \<notin> set f \<Longrightarrow>
   match_here (f @ ''(is_null)'') = Some \<lparr>key = f, operator = ''is_null)''\<rparr>"
  by (induction f) (auto simp: operator_alternatives_eq)

lemma re_search_head:
  "match_here s = Some d \<Longrightarrow> re_search s = Some d"
  by (cases s) (simp_all del: match_here.simps)

lemma split_operator_is_null:
  "CHR 0x0A \<notin> set f \<Longrightarrow>
   split_operator (f @ ''(is_null)'') = Some \<lparr>key = f, operator = ''is_null)''\<rparr>"
  unfolding split_operator_def by (rule re_search_head) (rule match_here_is_null)


lemma match_here_shape:
  "match_here s = Some d \<Longrightarrow> \<exists>post. s = key d @ CHR ''('' # operator d @ post"
proof (induction s arbitrary: d)
  case Nil
  then show ?case by simp
next
  case (Cons c cs)
  show ?case
  proof (cases "if c = CHR 0x0A then None else match_here cs")
    case None
    with Cons.prems obtain tok where tok: "match_operator (c # cs) = Some tok"
      and d: "d = \<lparr>key = [], operator = tok\<rparr>"
      by (auto split: option.splits)
    from match_operator_mem [OF tok] show ?thesis
      by (auto simp: d prefix_def)
  next
    case (Some d')
    then have "match_here cs = Some d'" by (auto split: if_splits)
    from Cons.IH [OF this] obtain post where "cs = key d' @ CHR ''('' # operator d' @ post" ..
    moreover from Some Cons.prems have "d = d'\<lparr>key := c # key d'\<rparr>" by auto
    ultimately show ?thesis by auto
  qed
qed

lemma re_search_shape:
  "re_search s = Some d \<Longrightarrow> \<exists>pre post. s = pre @ key d @ CHR ''('' # operator d @ post"
proof (induction s)
  case Nil
  then show ?case by simp
next
  case (Cons c cs)
  show ?case
  proof (cases "match_here (c # cs)")
    case None
    with Cons.prems have "re_search cs = Some d" by (simp del: match_here.simps)
    from Cons.IH [OF this] obtain pre post where "cs = pre @ key d @ CHR ''('' # operator d @ post"
      by blast
    then have "c # cs = (c # pre) @ key d @ CHR ''('' # operator d @ post" by simp
    then show ?thesis by blast
  next
    case (Some d')
    with Cons.prems have "d' = d" by (simp del: match_here.simps)
    with match_here_shape [OF Some] obtain post where "c # cs = [] @ key d @ CHR ''('' # operator d @ post"
      by auto
    then show ?thesis by blast
  qed
qed

lemma match_here_at_paren:
  assumes "tok \<in> set operator_alternatives"
  shows "match_here (CHR ''('' # tok @ post) \<noteq> None"
proof -
  have "match_alternatives operator_alternatives (tok @ post) \<noteq> None"
    using assms unfolding match_alternatives_None by (blast intro: prefixI)
  then show ?thesis by (auto split: option.splits)
qed

lemma re_search_suffix:
  "match_here s \<noteq> None \<Longrightarrow> re_search (pre @ s) \<noteq> None"
proof (induction pre)
  case Nil
  then show ?case using re_search_head by fastforce
next
  case (Cons c pre)
  then show ?case by (auto simp del: match_here.simps split: option.splits)
qed

lemma split_operator_matches_iff:
  "(\<exists>d. split_operator k = Some d) \<longleftrightarrow>
   (\<exists>pre tok post. tok \<in> set operator_alternatives \<and> k = pre @ CHR ''('' # tok @ post)"
proof
  assume "\<exists>d. split_operator k = Some d"
  then obtain d where d: "re_search k = Some d" by (auto simp: split_operator_def)
  from re_search_shape [OF d] obtain pre post
    where "k = (pre @ key d) @ CHR ''('' # operator d @ post" by auto
  with re_search_operator [OF d]
  show "\<exists>pre tok post. tok \<in> set operator_alternatives \<and> k = pre @ CHR ''('' # tok @ post"
    by blast
next
  assume "\<exists>pre tok post. tok \<in> set operator_alternatives \<and> k = pre @ CHR ''('' # tok @ post"
  then obtain pre tok post where "tok \<in> set operator_alternatives"
    and k: "k = pre @ CHR ''('' # tok @ post" by blast
  then have "re_search k \<noteq> None"
    using re_search_suffix [OF match_here_at_paren] by simp
  then show "\<exists>d. split_operator k = Some d" by (auto simp: split_operator_def)
qed

section \<open>Properties of the predicate filter\<close>

lemma find_field_Inr:
  "field_name \<in> set (map name fs) \<Longrightarrow>
   \<exists>f. find_field fs field_name = Inr f \<and> f \<in> set fs \<and> name f = field_name"
  by (induction fs) auto

lemma find_field_Inl:
  "find_field fs field_name = Inl e \<Longrightarrow> field_name \<notin> set (map name fs)"
  by (induction fs) (auto split: if_splits)

lemma get_field_py_valid:
  "field_name \<in> set (get_valid_field_name_list q) \<Longrightarrow>
   \<exists>f. get_field_py q field_name = Inr f \<and> f \<in> set (selected_columns q) \<and> name f = field_name"
  unfolding get_field_py_def get_valid_field_name_list_def by (rule find_field_Inr)

lemma filter_param_selected_columns:
  "filter_param strp q param = Inr q' \<Longrightarrow> selected_columns q' = selected_columns q"
  by (auto simp: filter_param_def query_where_def split: option.splits sum.splits if_splits)

lemma filter_param_not_FieldNotFound:
  "filter_param strp q param \<noteq> Inl (FieldNotFound n)"
proof (cases "split_operator (fst param)")
  case None
  then show ?thesis by (simp add: filter_param_def)
next
  case (Some d)
  show ?thesis
  proof (cases "key d \<in> set (get_valid_field_name_list q)")
    case False
    with Some show ?thesis by (simp add: filter_param_def)
  next
    case True
    from get_field_py_valid [OF this] obtain f where "get_field_py q (key d) = Inr f" by blast
    with Some True show ?thesis
      by (simp add: filter_param_def split: option.splits)
  qed
qed

lemma DefaultFilter_filter_selected_columns:
  "DefaultFilter_filter strp q params = Inr q' \<Longrightarrow> selected_columns q' = selected_columns q"
proof (induction params arbitrary: q)
  case Nil
  then show ?case by simp
next
  case (Cons p ps)
  then show ?case
    by (auto split: sum.splits dest!: filter_param_selected_columns)
qed

lemma DefaultFilter_filter_append:
  "DefaultFilter_filter strp q (ps @ rs) =
     (case DefaultFilter_filter strp q ps of
        Inl e \<Rightarrow> Inl e | Inr q' \<Rightarrow> DefaultFilter_filter strp q' rs)"
  by (induction ps arbitrary: q) (auto split: sum.splits)

lemma is_support_operator_is_null_paren:
  "is_support_operator ff ''is_null)''"
  by (cases ff) simp_all

lemma filter_param_is_null:
  assumes "CHR 0x0A \<notin> set f" and "f \<in> set (get_valid_field_name_list q)"
  shows "filter_param strp q (f @ ''(is_null)'', v) = Inl (KeyError ''is_null)'')"
proof -
  from get_field_py_valid [OF assms(2)] obtain fld where "get_field_py q f = Inr fld" by blast
  with assms(2) split_operator_is_null [OF assms(1)] show ?thesis
    by (simp add: filter_param_def is_support_operator_is_null_paren SUPPORT_METHOD_def MAP_def)
qed

lemma DefaultFilter_filter_not_FieldNotFound:
  "DefaultFilter_filter strp q params \<noteq> Inl (FieldNotFound n)"
  by (induction params arbitrary: q)
     (auto split: sum.splits simp: filter_param_not_FieldNotFound)

lemma map_of_MAP_None:
  "tok \<in> set operator_alternatives \<Longrightarrow> map_of MAP tok = None \<Longrightarrow> tok = ''is_null)''"
  by (auto simp: operator_alternatives_eq MAP_def)

lemma filter_param_error:
  assumes "filter_param strp q param = Inl e"
  shows "e = KeyError ''is_null)''"
proof (cases "split_operator (fst param)")
  case None
  with assms show ?thesis by (simp add: filter_param_def)
next
  case (Some d)
  show ?thesis
  proof (cases "key d \<in> set (get_valid_field_name_list q)")
    case False
    with Some assms show ?thesis by (simp add: filter_param_def)
  next
    case True
    from get_field_py_valid [OF this] obtain f where "get_field_py q (key d) = Inr f" by blast
    with Some True assms have "map_of MAP (operator d) = None" and "e = KeyError (operator d)"
      by (auto simp: filter_param_def split: option.splits if_splits)
    with map_of_MAP_None [OF split_operator_operator [OF Some]] show ?thesis by simp
  qed
qed

lemma DefaultFilter_filter_error:
  "DefaultFilter_filter strp q params = Inl e \<Longrightarrow> e = KeyError ''is_null)''"
  by (induction params arbitrary: q) (auto split: sum.splits dest: filter_param_error)


section \<open>Properties of the ordering filter\<close>

lemma query_order_by_twice:
  "query_order_by (query_order_by q a) b = query_order_by q b"
  by (simp add: query_order_by_def)

lemma field_ordering_query_order_by:
  "field_ordering (query_order_by q a) n = field_ordering q n"
  by (simp add: field_ordering_def get_field_py_def query_order_by_def)

lemma valid_names_query_order_by:
  "get_valid_field_name_list (query_order_by q a) = get_valid_field_name_list q"
  by (simp add: get_valid_field_name_list_def query_order_by_def)

lemma field_ordering_valid:
  assumes "term_valid (get_valid_field_name_list q) t"
  shows "\<exists>f. f \<in> set (selected_columns q) \<and>
             name f = (if startswith_minus t then slice_from_1 t else t) \<and>
             field_ordering q t = Inr (if startswith_minus t then Desc f else Ascending f)"
proof (cases "startswith_minus t")
  case True
  with assms have "slice_from_1 t \<in> set (get_valid_field_name_list q)"
    by (simp add: term_valid_def)
  from get_field_py_valid [OF this] True show ?thesis
    by (auto simp: field_ordering_def)
next
  case False
  with assms have "t \<in> set (get_valid_field_name_list q)"
    by (simp add: term_valid_def)
  from get_field_py_valid [OF this] False show ?thesis
    by (auto simp: field_ordering_def)
qed

lemma order_by_fields_last:
  assumes "\<forall>n \<in> set ns. term_valid (get_valid_field_name_list q) n" and "ns \<noteq> []"
  shows "\<exists>v. field_ordering q (last ns) = Inr v \<and> order_by_fields q ns = Inr (query_order_by q v)"
  using assms
proof (induction ns arbitrary: q)
  case Nil
  then show ?case by simp
next
  case (Cons n ns)
  from Cons.prems(1) have "term_valid (get_valid_field_name_list q) n" by simp
  from field_ordering_valid [OF this] obtain v where v: "field_ordering q n = Inr v" by blast
  show ?case
  proof (cases "ns = []")
    case True
    with v show ?thesis by simp
  next
    case False
    from Cons.prems(1)
    have "\<forall>m \<in> set ns. term_valid (get_valid_field_name_list (query_order_by q v)) m"
      by (simp add: valid_names_query_order_by)
    from Cons.IH [OF this False] obtain w
      where "field_ordering (query_order_by q v) (last ns) = Inr w"
        and "order_by_fields (query_order_by q v) ns = Inr (query_order_by (query_order_by q v) w)"
      by blast
    with v False show ?thesis
      by (simp add: field_ordering_query_order_by query_order_by_twice)
  qed
qed

lemma order_by_fields_foldl:
  assumes "\<forall>n \<in> set ns. term_valid (get_valid_field_name_list q) n"
  shows "\<exists>vs. map (field_ordering q) ns = map Inr vs
            \<and> order_by_fields q ns = Inr (foldl query_order_by q vs)"
  using assms
proof (induction ns arbitrary: q)
  case Nil
  then show ?case by simp
next
  case (Cons n ns)
  from Cons.prems have "term_valid (get_valid_field_name_list q) n" by simp
  from field_ordering_valid [OF this] obtain v where v: "field_ordering q n = Inr v" by blast
  from Cons.prems
  have "\<forall>m \<in> set ns. term_valid (get_valid_field_name_list (query_order_by q v)) m"
    by (simp add: valid_names_query_order_by)
  from Cons.IH [OF this] obtain vs
    where "map (field_ordering (query_order_by q v)) ns = map Inr vs"
      and "order_by_fields (query_order_by q v) ns = Inr (foldl query_order_by (query_order_by q v) vs)"
    by blast
  moreover have "field_ordering (query_order_by q v) = field_ordering q"
    by (rule ext) (rule field_ordering_query_order_by)
  ultimately have "map (field_ordering q) (n # ns) = map Inr (v # vs)
     \<and> order_by_fields q (n # ns) = Inr (foldl query_order_by q (v # vs))"
    using v by simp
  then show ?case by blast
qed

lemma foldl_query_order_by:
  "vs \<noteq> [] \<Longrightarrow> foldl query_order_by q vs = q\<lparr>order_by_clause := [last vs]\<rparr>"
proof (induction vs arbitrary: q)
  case Nil
  then show ?case by simp
next
  case (Cons v vs)
  then show ?case by (cases "vs = []") (simp_all add: query_order_by_def)
qed

lemma filter_valid_fields_valid:
  "\<forall>n \<in> set (filter_valid_fields q ps). term_valid (get_valid_field_name_list q) n"
  by (simp add: filter_valid_fields_def)

lemma ordering_field_name_list_valid:
  "\<forall>n \<in> set (ordering_field_name_list q param). term_valid (get_valid_field_name_list q) n"
  by (simp add: ordering_field_name_list_def filter_valid_fields_def)

lemma OrderingFilter_filter_first_only:
  assumes "ordering_field_name_list q param = t # ts"
  shows "\<exists>v. field_ordering q t = Inr v \<and>
             OrderingFilter_filter q (Some param) = Inr (q\<lparr>order_by_clause := [v]\<rparr>)"
proof -
  have "\<forall>n \<in> set (rev (t # ts)). term_valid (get_valid_field_name_list q) n"
    using ordering_field_name_list_valid [of q param] assms by simp
  from order_by_fields_last [OF this]
  obtain v where "field_ordering q (last (rev (t # ts))) = Inr v"
    and "order_by_fields q (rev (t # ts)) = Inr (query_order_by q v)" by auto
  with assms show ?thesis
    by (auto simp: OrderingFilter_filter_def query_order_by_def)
qed

lemma OrderingFilter_filter_Some_Inr:
  "\<exists>q'. OrderingFilter_filter q (Some param) = Inr q'"
proof (cases "ordering_field_name_list q param")
  case Nil
  then show ?thesis by (simp add: OrderingFilter_filter_def)
next
  case (Cons t ts)
  from OrderingFilter_filter_first_only [OF this] show ?thesis by blast
qed

lemma find_primary_key_error:
  "find_primary_key fs = Inl e \<Longrightarrow> e = AttributeError"
  by (induction fs) (auto split: option.splits if_splits)

lemma find_primary_key_None:
  "\<forall>f \<in> set fs. \<exists>pk. primary_key_name f = Some pk \<and> pk \<noteq> name f \<Longrightarrow>
   find_primary_key fs = Inr None"
  by (induction fs) auto

lemma find_primary_key_Some:
  "find_primary_key fs = Inr (Some f) \<Longrightarrow> f \<in> set fs \<and> primary_key_name f = Some (name f)"
  by (induction fs) (auto split: option.splits if_splits)

lemma OrderingFilter_filter_default_field:
  "get_default_ordering_field q = Inr (Some f) \<Longrightarrow>
   OrderingFilter_filter q None = Inr (q\<lparr>order_by_clause := [Ascending f]\<rparr>)"
  by (simp add: OrderingFilter_filter_def query_order_by_def)

lemma OrderingFilter_filter_unkeyed_model:
  "OrderingFilter_filter (example_query\<lparr>selected_columns := [example_unkeyed, example_id]\<rparr>) None
     = Inl AttributeError"
  by (simp add: OrderingFilter_filter_def get_default_ordering_field_def example_unkeyed_def)

lemma OrderingFilter_filter_not_FieldNotFound:
  "OrderingFilter_filter q ordering_param \<noteq> Inl (FieldNotFound n)"
proof (cases ordering_param)
  case None
  then show ?thesis
    by (auto simp: OrderingFilter_filter_def get_default_ordering_field_def
        split: sum.splits dest: find_primary_key_error)
next
  case (Some param)
  with OrderingFilter_filter_Some_Inr [of q param] show ?thesis by auto
qed

section \<open>The properties of the specification\<close>

text \<open>
  C1. A key \<^verbatim>\<open>f(is_null)\<close> on a selected field \<open>f\<close> is meant to add the null check
  \<^verbatim>\<open>f.is_null(value == "true")\<close>. The code does not get there: the closing parenthesis
  belongs to the last alternative of the group, so the operator that \<^verbatim>\<open>split_operator\<close>
  captures is \<^verbatim>\<open>is_null)\<close>. Every adapter supports that text, it is not in
  \<^verbatim>\<open>SUPPORT_METHOD\<close>, and \<^verbatim>\<open>self.MAP[operator]\<close> raises \<^verbatim>\<open>KeyError\<close>. This holds for
  every query, every selected field name \<open>f\<close> without a line break, every value and
  wherever the pair stands among the parameters.
\<close>

theorem is_null_key_raises_KeyError:
  assumes "CHR 0x0A \<notin> set f" and "f \<in> set (get_valid_field_name_list q)"
  shows "split_operator (f @ ''(is_null)'') = Some \<lparr>key = f, operator = ''is_null)''\<rparr>
       \<and> DefaultFilter_filter strp q (before @ (f @ ''(is_null)'', v) # after)
           = Inl (KeyError ''is_null)'')"
proof
  show "split_operator (f @ ''(is_null)'') = Some \<lparr>key = f, operator = ''is_null)''\<rparr>"
    by (rule split_operator_is_null [OF assms(1)])
  show "DefaultFilter_filter strp q (before @ (f @ ''(is_null)'', v) # after)
           = Inl (KeyError ''is_null)'')"
  proof (cases "DefaultFilter_filter strp q before")
    case (Inl e)
    with DefaultFilter_filter_error [OF Inl] show ?thesis
      by (simp add: DefaultFilter_filter_append)
  next
    case (Inr q')
    from DefaultFilter_filter_selected_columns [OF Inr] assms(2)
    have "f \<in> set (get_valid_field_name_list q')"
      by (simp add: get_valid_field_name_list_def)
    from filter_param_is_null [OF assms(1) this] Inr show ?thesis
      by (simp add: DefaultFilter_filter_append)
  qed
qed

theorem is_null_key_raises_KeyError_witness:
  "split_operator ''name(is_null)'' = Some \<lparr>key = ''name'', operator = ''is_null)''\<rparr>
   \<and> DefaultFilter_filter example_strptime example_query [(''name(is_null)'', ''true'')]
       = Inl (KeyError ''is_null)'')
   \<and> DefaultFilter_filter example_strptime example_query
         [(''id(>=)'', ''3''), (''name(is_null)'', ''true''), (''name(==)'', ''Alice'')]
       = Inl (KeyError ''is_null)'')"
  using is_null_key_raises_KeyError [of "''name''" example_query example_strptime
      "[]" "''true''" "[]"]
    is_null_key_raises_KeyError [of "''name''" example_query example_strptime
      "[(''id(>=)'', ''3'')]" "''true''" "[(''name(==)'', ''Alice'')]"]
  by (simp add: get_valid_field_name_list_def example_query_def example_name_def)

text \<open>
  C2. \<^verbatim>\<open>split_operator\<close> is meant to accept a key exactly when it has the form
  \<^verbatim>\<open><anything>(<operator>)\<close>. What the code accepts: a key matches if and only if it
  holds an opening parenthesis directly followed by one of \<^verbatim>\<open>==\<close>, \<^verbatim>\<open>!=\<close>, \<^verbatim>\<open>>=\<close>,
  \<^verbatim>\<open><=\<close>, \<^verbatim>\<open>>\<close>, \<^verbatim>\<open><\<close>, \<^verbatim>\<open>LIKE\<close>, \<^verbatim>\<open>ILIKE\<close> or \<^verbatim>\<open>is_null)\<close>; only the last of these
  needs the closing parenthesis, and keeps it in the captured operator. So \<^verbatim>\<open>age(>=\<close>
  is accepted like \<^verbatim>\<open>age(>=)\<close>, and \<^verbatim>\<open>age(is_null)\<close> yields the operator \<^verbatim>\<open>is_null)\<close>.
  The three examples of the claim come out as it says.
\<close>

theorem split_operator_without_closing_parenthesis:
  "((\<exists>d. split_operator k = Some d) \<longleftrightarrow>
      (\<exists>pre tok post.
         tok \<in> set [''=='', ''!='', ''>='', ''<='', ''>'', ''<'', ''LIKE'', ''ILIKE'', ''is_null)'']
         \<and> k = pre @ ''('' @ tok @ post))
   \<and> split_operator ''age(>='' = Some \<lparr>key = ''age'', operator = ''>=''\<rparr>
   \<and> split_operator ''age(>=)'' = Some \<lparr>key = ''age'', operator = ''>=''\<rparr>
   \<and> split_operator ''age(is_null)'' = Some \<lparr>key = ''age'', operator = ''is_null)''\<rparr>
   \<and> split_operator ''age(is_null'' = None
   \<and> split_operator ''age'' = None
   \<and> split_operator ''age(BETWEEN)'' = None"
proof -
  have "split_operator ''age(>='' = Some \<lparr>key = ''age'', operator = ''>=''\<rparr>"
    by (simp add: split_operator_def operator_alternatives_eq)
  moreover have "split_operator ''age(>=)'' = Some \<lparr>key = ''age'', operator = ''>=''\<rparr>"
    by (simp add: split_operator_def operator_alternatives_eq)
  moreover have "split_operator ''age(is_null)'' = Some \<lparr>key = ''age'', operator = ''is_null)''\<rparr>"
    by (simp add: split_operator_def operator_alternatives_eq)
  moreover have "split_operator ''age(is_null'' = None"
    by (simp add: split_operator_def operator_alternatives_eq)
  moreover have "split_operator ''age'' = None"
    by (simp add: split_operator_def operator_alternatives_eq)
  moreover have "split_operator ''age(BETWEEN)'' = None"
    by (simp add: split_operator_def operator_alternatives_eq)
  ultimately show ?thesis
    using split_operator_matches_iff [of k] by (simp add: operator_alternatives_eq)
qed

text \<open>
  C3. With the surviving tokens \<open>t1 .. tn\<close> (\<open>n \<ge> 1\<close>) the filter is meant to leave the
  sort precedence \<open>t1\<close>, then \<open>t2 .. tn\<close>. The code calls \<^verbatim>\<open>order_by\<close> once per token,
  \<open>tn\<close> first and \<open>t1\<close> last (the values \<open>vs\<close> below, one per token of the reversed
  list), and every call overwrites the ORDER BY clause of the call before: what is left
  is the single sort key of \<open>t1\<close> (descending when \<open>t1\<close> starts with \<^verbatim>\<open>-\<close>, ascending
  otherwise), and \<open>t2 .. tn\<close> break no ties. For \<^verbatim>\<open>name,-id\<close> the result is ordered by
  \<^verbatim>\<open>name\<close> alone.
\<close>

theorem ordering_keeps_first_token_only:
  assumes "param \<noteq> []"
    and "filter_valid_fields q (map strip (split_on CHR '','' param)) = t # ts"
  shows "\<exists>vs f. map (field_ordering q) (rev (t # ts)) = map Inr vs
           \<and> OrderingFilter_filter q (Some param) = Inr (foldl query_order_by q vs)
           \<and> f \<in> set (selected_columns q)
           \<and> name f = (if startswith_minus t then slice_from_1 t else t)
           \<and> foldl query_order_by q vs
               = q\<lparr>order_by_clause := [if startswith_minus t then Desc f else Ascending f]\<rparr>"
proof -
  from assms have l: "ordering_field_name_list q param = t # ts"
    by (simp add: ordering_field_name_list_def)
  have valid: "\<forall>n \<in> set (rev (t # ts)). term_valid (get_valid_field_name_list q) n"
    using ordering_field_name_list_valid [of q param] l by simp
  from order_by_fields_foldl [OF valid] obtain vs
    where vs: "map (field_ordering q) (rev (t # ts)) = map Inr vs"
      and run: "order_by_fields q (rev (t # ts)) = Inr (foldl query_order_by q vs)"
    by blast
  from valid have "term_valid (get_valid_field_name_list q) t" by simp
  from field_ordering_valid [OF this] obtain f
    where f: "f \<in> set (selected_columns q)"
        "name f = (if startswith_minus t then slice_from_1 t else t)"
      and ft: "field_ordering q t = Inr (if startswith_minus t then Desc f else Ascending f)"
    by blast
  from vs have "map (field_ordering q) (rev ts) @ [field_ordering q t] = map Inr vs" by simp
  then have "vs \<noteq> []" and "Inr (last vs) = field_ordering q t"
    by (cases vs rule: rev_cases; simp)+
  with ft have "vs \<noteq> []" and "last vs = (if startswith_minus t then Desc f else Ascending f)"
    by auto
  with foldl_query_order_by [of vs q]
  have "foldl query_order_by q vs
      = q\<lparr>order_by_clause := [if startswith_minus t then Desc f else Ascending f]\<rparr>"
    by simp
  moreover from l run
  have "OrderingFilter_filter q (Some param) = Inr (foldl query_order_by q vs)"
    by (simp add: OrderingFilter_filter_def)
  ultimately show ?thesis using vs f by blast
qed

theorem ordering_keeps_first_token_only_witness:
  "OrderingFilter_filter example_query (Some ''name,-id'')
     = Inr (example_query\<lparr>order_by_clause := [Ascending example_name]\<rparr>)"
proof -
  have v: "filter_valid_fields example_query (map strip (split_on CHR '','' ''name,-id''))
             = [''name'', ''-id'']"
    by (simp add: filter_valid_fields_def term_valid_def get_valid_field_name_list_def
        example_query_def example_id_def example_name_def example_active_def
        example_created_def strip_def isspace_def startswith_minus_def slice_from_1_def)
  from ordering_keeps_first_token_only [OF _ v]
  show ?thesis
    by (auto simp: startswith_minus_def example_query_def example_id_def example_name_def
        example_active_def example_created_def)
qed

text \<open>
  C4. An ordering parameter that is not \<^verbatim>\<open>None\<close> and of which no token survives the
  validity filter (the empty string included) leaves the query as it is: no sort key is
  added, the primary key is not used instead, and no exception is raised.
\<close>

theorem ordering_without_valid_token_is_noop:
  assumes "param = [] \<or> filter_valid_fields q (map strip (split_on CHR '','' param)) = []"
  shows "OrderingFilter_filter q (Some param) = Inr q"
  using assms by (auto simp: OrderingFilter_filter_def ordering_field_name_list_def)

theorem ordering_without_valid_token_is_noop_witness:
  "OrderingFilter_filter example_query (Some ''bogus_field'') = Inr example_query
   \<and> OrderingFilter_filter example_query (Some '' , -nope '') = Inr example_query
   \<and> OrderingFilter_filter example_query (Some ''   '') = Inr example_query
   \<and> OrderingFilter_filter example_query (Some '''') = Inr example_query"
proof -
  have names: "get_valid_field_name_list example_query = [''id'', ''name'', ''active'', ''created'']"
    by (simp add: get_valid_field_name_list_def example_query_def example_id_def
        example_name_def example_active_def example_created_def)
  have 1: "filter_valid_fields example_query (map strip (split_on CHR '','' ''bogus_field'')) = []"
    by (simp add: filter_valid_fields_def term_valid_def names strip_def isspace_def
        startswith_minus_def slice_from_1_def)
  have 2: "filter_valid_fields example_query (map strip (split_on CHR '','' '' , -nope '')) = []"
    by (simp add: filter_valid_fields_def term_valid_def names strip_def isspace_def
        startswith_minus_def slice_from_1_def)
  have 3: "filter_valid_fields example_query (map strip (split_on CHR '','' ''   '')) = []"
    by (simp add: filter_valid_fields_def term_valid_def names strip_def isspace_def
        startswith_minus_def slice_from_1_def)
  show ?thesis
    using ordering_without_valid_token_is_noop [of "''bogus_field''" example_query]
      ordering_without_valid_token_is_noop [of "'' , -nope ''" example_query]
      ordering_without_valid_token_is_noop [of "''   ''" example_query]
      ordering_without_valid_token_is_noop [of "''''" example_query] 1 2 3
    by simp
qed



text \<open>
  C6. For every operator text: the text adapter and the default adapter support it; the
  boolean adapter supports it exactly when it is none of \<^verbatim>\<open>>=\<close>, \<^verbatim>\<open><=\<close>, \<^verbatim>\<open>>\<close>, \<^verbatim>\<open><\<close>,
  \<^verbatim>\<open>LIKE\<close>, \<^verbatim>\<open>ILIKE\<close>; the integer and the date-time adapter support it exactly when it
  is neither \<^verbatim>\<open>LIKE\<close> nor \<^verbatim>\<open>ILIKE\<close>.
\<close>

theorem is_support_operator_table:
  "is_support_operator (FilterCharField f) tok
   \<and> is_support_operator (FilterDefaultField f) tok
   \<and> is_support_operator (FilterBooleanField f) tok
       = (tok \<noteq> ''>='' \<and> tok \<noteq> ''<='' \<and> tok \<noteq> ''>'' \<and> tok \<noteq> ''<''
          \<and> tok \<noteq> ''LIKE'' \<and> tok \<noteq> ''ILIKE'')
   \<and> is_support_operator (FilterIntegerField f) tok
       = (tok \<noteq> ''LIKE'' \<and> tok \<noteq> ''ILIKE'')
   \<and> is_support_operator (FilterDateTimeField f) tok
       = (tok \<noteq> ''LIKE'' \<and> tok \<noteq> ''ILIKE'')"
  by simp

theorem is_support_operator_table_witness:
  "\<not> is_support_operator (FilterBooleanField example_active) ''LIKE''
   \<and> is_support_operator (FilterBooleanField example_active) ''!=''
   \<and> is_support_operator (FilterIntegerField example_id) ''>=''
   \<and> \<not> is_support_operator (FilterDateTimeField example_created) ''ILIKE''
   \<and> is_support_operator (FilterCharField example_name) ''LIKE''"
  using is_support_operator_table [of example_active "''LIKE''"]
    is_support_operator_table [of example_active "''!=''"]
    is_support_operator_table [of example_id "''>=''"]
    is_support_operator_table [of example_created "''ILIKE''"]
    is_support_operator_table [of example_name "''LIKE''"]
  by simp

text \<open>
  C7. \<^verbatim>\<open>filter(None)\<close> is meant to order every query by the primary key, ascending.
  The code looks for the key among the selected columns only, and
  \<^verbatim>\<open>get_default_ordering_field\<close> has no \<^verbatim>\<open>return\<close> after its loop: for a query none of
  whose selected columns bears the name of the primary key of its model (every model
  having one) it returns \<^verbatim>\<open>None\<close>, the filter hands that to \<^verbatim>\<open>order_by\<close>, and the
  resulting ORDER BY clause names no field. For the query that selects \<^verbatim>\<open>name\<close> and
  \<^verbatim>\<open>active\<close> of the example model the clause is \<^verbatim>\<open>None\<close> alone.
\<close>

theorem ordering_default_without_key_column:
  assumes "\<forall>f \<in> set (selected_columns q). \<exists>pk. primary_key_name f = Some pk \<and> pk \<noteq> name f"
  shows "get_default_ordering_field q = Inr None
       \<and> OrderingFilter_filter q None = Inr (q\<lparr>order_by_clause := [NoOrdering]\<rparr>)"
proof -
  from find_primary_key_None [OF assms]
  have "get_default_ordering_field q = Inr None"
    by (simp add: get_default_ordering_field_def)
  then show ?thesis
    by (simp add: OrderingFilter_filter_def query_order_by_def)
qed

theorem ordering_default_without_key_column_witness:
  "OrderingFilter_filter (example_query\<lparr>selected_columns := [example_name, example_active]\<rparr>) None
     = Inr (example_query\<lparr>selected_columns := [example_name, example_active],
                          order_by_clause := [NoOrdering]\<rparr>)"
  using ordering_default_without_key_column
    [of "example_query\<lparr>selected_columns := [example_name, example_active]\<rparr>"]
  by (simp add: example_query_def example_name_def example_active_def)

text \<open>
  C8. \<^verbatim>\<open>FilterDateTimeField.parse_value\<close> tries the formats in the order of the list and
  returns the first parse that succeeds; when none does, it returns the raw string, and
  it raises nothing. With the configured list, the one format \<^verbatim>\<open>%Y-%m-%dT%H:%M:%S\<close>:
  the parse when \<^verbatim>\<open>strptime\<close> succeeds, the raw string when it raises \<^verbatim>\<open>ValueError\<close>.
\<close>

theorem parse_value_datetime:
  "parse_formats strp formats raw
     = (case List.map_filter (strp raw) formats of
          [] \<Rightarrow> PyStr raw
        | d # ds \<Rightarrow> PyDatetime d)
   \<and> parse_value strp (FilterDateTimeField f) raw
     = (case strp raw ''%Y-%m-%dT%H:%M:%S'' of
          Some d \<Rightarrow> PyDatetime d
        | None \<Rightarrow> PyStr raw)"
proof
  show "parse_formats strp formats raw
     = (case List.map_filter (strp raw) formats of [] \<Rightarrow> PyStr raw | d # ds \<Rightarrow> PyDatetime d)"
    by (induction formats) (auto simp: List.map_filter_simps split: option.splits)
  show "parse_value strp (FilterDateTimeField f) raw
     = (case strp raw ''%Y-%m-%dT%H:%M:%S'' of Some d \<Rightarrow> PyDatetime d | None \<Rightarrow> PyStr raw)"
    by (simp add: FORMATS_def split: option.splits)
qed

theorem parse_value_datetime_witness:
  "parse_value example_strptime (FilterDateTimeField example_created) ''2024-01-02T03:04:05''
     = PyDatetime (Datetime 2024 1 2 3 4 5)
   \<and> parse_value example_strptime (FilterDateTimeField example_created) ''yesterday''
     = PyStr ''yesterday''"
  using parse_value_datetime [of example_strptime "[]" "''2024-01-02T03:04:05''" example_created]
    parse_value_datetime [of example_strptime "[]" "''yesterday''" example_created]
  by (simp add: example_strptime_def)

text \<open>
  C9. \<^verbatim>\<open>FilterBooleanField.parse_value\<close> returns \<^verbatim>\<open>True\<close> if and only if the raw value is
  the string \<^verbatim>\<open>true\<close>, letter for letter: \<^verbatim>\<open>True\<close> and \<^verbatim>\<open>1\<close> give \<^verbatim>\<open>False\<close>.
\<close>

theorem parse_value_boolean:
  "parse_value strp (FilterBooleanField f) raw = PyBool (raw = ''true'')
   \<and> (parse_value strp (FilterBooleanField f) raw = PyBool True) = (raw = ''true'')
   \<and> parse_value strp (FilterBooleanField f) ''true'' = PyBool True
   \<and> parse_value strp (FilterBooleanField f) ''True'' = PyBool False
   \<and> parse_value strp (FilterBooleanField f) ''1'' = PyBool False"
  by simp

theorem parse_value_boolean_witness:
  "parse_value example_strptime (FilterBooleanField example_active) ''true'' = PyBool True
   \<and> parse_value example_strptime (FilterBooleanField example_active) ''TRUE'' = PyBool False"
  using parse_value_boolean [of example_strptime example_active "''true''"]
    parse_value_boolean [of example_strptime example_active "''TRUE''"]
  by simp

text \<open>
  C10. Both filters call \<^verbatim>\<open>get_field_py\<close> only with a name that they have found among
  the names of the selected columns, so the exception \<^verbatim>\<open>Field ... not found\<close> is never
  raised: no run of \<^verbatim>\<open>DefaultFilter.filter\<close> or of \<^verbatim>\<open>OrderingFilter.filter\<close> ends in it.
\<close>

theorem field_not_found_unreachable:
  "DefaultFilter_filter strp q params \<noteq> Inl (FieldNotFound n)
   \<and> OrderingFilter_filter q ordering_param \<noteq> Inl (FieldNotFound n)"
  using DefaultFilter_filter_not_FieldNotFound [of strp q params n]
    OrderingFilter_filter_not_FieldNotFound [of q ordering_param n]
  by simp

theorem field_not_found_unreachable_witness:
  "DefaultFilter_filter example_strptime example_query
      [(''name(==)'', ''Alice''), (''nobody(==)'', ''x'')] \<noteq> Inl (FieldNotFound ''nobody'')
   \<and> OrderingFilter_filter example_query (Some ''-id,nobody'') \<noteq> Inl (FieldNotFound ''nobody'')"
  using field_not_found_unreachable [of example_strptime example_query
      "[(''name(==)'', ''Alice''), (''nobody(==)'', ''x'')]" "''nobody''" "Some ''-id,nobody''"]
  by simp

end
